theory Spec2Isabelle
  imports Main "HOL-Library.Word"
begin

section \<open>The ciphertext arithmetic layer\<close>

text \<open>
  The contract \<^verbatim>\<open>RatingNet\<close> is written against the FHE library
  (\<^verbatim>\<open>@fhevm/solidity/lib/FHE.sol\<close>), which is an external package and not part of
  the repository. Its primitives are modelled here as an idealised ciphertext store:
  a handle is an opaque identifier, the store records the cleartext each handle decrypts
  to, and every operation returns a handle that was never used before.
\<close>

type_synonym address = "160 word"
type_synonym handle = nat

text \<open>
  Solidity: \<^verbatim>\<open>type euint8 is bytes32\<close>, \<^verbatim>\<open>type euint32 is bytes32\<close>. The handle
  \<open>0\<close> is the value of an unwritten storage slot, the uninitialised handle.
\<close>

datatype euint8 = Euint8 (unwrap8: handle)
datatype euint32 = Euint32 (unwrap32: handle)

text \<open>
  Modelled from the spec: the state of the external ciphertext layer and ACL manager.
  \<open>allocated\<close> counts the handles produced so far (handle \<open>n + 1\<close> is the next one),
  \<open>ct8\<close> and \<open>ct32\<close> give the cleartext under a handle of either width, and \<open>acl\<close>
  is the append-only permission relation between handles and principals.
\<close>

record fhevm =
  allocated :: nat
  ct8 :: "euint8 \<Rightarrow> 8 word"
  ct32 :: "euint32 \<Rightarrow> 32 word"
  acl :: "(handle \<times> address) set"

text \<open>
  Modelled from the spec: the submitted score. It is an externally produced ciphertext,
  with its declared bit width and the value under
  encryption, and the proof submitted with it. Whether the proof verifies is the only
  thing the import observes of it.
\<close>

record externalEuint8 =
  ext_bits :: nat
  ext_value :: nat

record inputProof =
  verifies :: bool

text \<open>
  The errors a call can revert with: the two failures of the verified import, and the
  division of a ciphertext by the clear scalar zero.
\<close>

datatype error = InvalidInputProof | TypeMismatch | DivisionByZero

text \<open>
  Modelled from the spec: the test of the external FHE library for an initialised
  handle (\<^verbatim>\<open>FHE.isInitialized\<close>), 8 bits.
\<close>

definition isInitialized8 :: "euint8 \<Rightarrow> bool" where
  "isInitialized8 h = (unwrap8 h \<noteq> 0)"

text \<open>
  Modelled from the spec: the test of the external FHE library for an initialised
  handle, 32 bits.
\<close>

definition isInitialized32 :: "euint32 \<Rightarrow> bool" where
  "isInitialized32 h = (unwrap32 h \<noteq> 0)"

text \<open>
  Modelled from the spec: constant-encrypt of the external FHE library, 8 bits
  (\<^verbatim>\<open>FHE.asEuint8(uint8)\<close>). It produces a new handle that decrypts to the constant.
\<close>

definition asEuint8 :: "fhevm \<Rightarrow> 8 word \<Rightarrow> euint8 \<times> fhevm" where
  "asEuint8 f v =
     (let h = Euint8 (Suc (allocated f))
      in (h, f\<lparr>allocated := Suc (allocated f), ct8 := (ct8 f)(h := v)\<rparr>))"

text \<open>
  Modelled from the spec: constant-encrypt of the external FHE library, 32 bits
  (\<^verbatim>\<open>FHE.asEuint32(uint32)\<close>).
\<close>

definition asEuint32 :: "fhevm \<Rightarrow> 32 word \<Rightarrow> euint32 \<times> fhevm" where
  "asEuint32 f v =
     (let h = Euint32 (Suc (allocated f))
      in (h, f\<lparr>allocated := Suc (allocated f), ct32 := (ct32 f)(h := v)\<rparr>))"

text \<open>
  Modelled from the spec: an 8-bit operand of the external FHE library's operations.
  An uninitialised operand is treated as a freshly encrypted zero.
\<close>

definition operand8 :: "fhevm \<Rightarrow> euint8 \<Rightarrow> euint8 \<times> fhevm" where
  "operand8 f a = (if isInitialized8 a then (a, f) else asEuint8 f 0)"

text \<open>
  Modelled from the spec: a 32-bit operand of the external FHE library's operations.
  An uninitialised operand, such as the sum of a subject that was never written, is
  treated as a freshly encrypted zero.
\<close>

definition operand32 :: "fhevm \<Rightarrow> euint32 \<Rightarrow> euint32 \<times> fhevm" where
  "operand32 f a = (if isInitialized32 a then (a, f) else asEuint32 f 0)"

text \<open>
  Modelled from the spec: verified-import of the external FHE library
  (\<^verbatim>\<open>FHE.fromExternal\<close>). It fails with \<open>InvalidInputProof\<close> if the proof does not
  verify and with \<open>TypeMismatch\<close> if the width is not the 8 bits of \<^verbatim>\<open>externalEuint8\<close>;
  otherwise it produces a new 8-bit handle for the submitted value.
\<close>

definition fromExternal :: "fhevm \<Rightarrow> externalEuint8 \<Rightarrow> inputProof \<Rightarrow> error + euint8 \<times> fhevm" where
  "fromExternal f cipherScore proof' =
     (if \<not> verifies proof' then Inl InvalidInputProof
      else if ext_bits cipherScore \<noteq> 8 then Inl TypeMismatch
      else Inr (asEuint8 f (of_nat (ext_value cipherScore))))"

text \<open>
  Modelled from the spec: max of the external FHE library (\<^verbatim>\<open>FHE.max\<close>), on the
  cleartexts of its operands, with a new result handle.
\<close>

definition fhe_max :: "fhevm \<Rightarrow> euint8 \<Rightarrow> euint8 \<Rightarrow> euint8 \<times> fhevm" where
  "fhe_max f a b =
     (let (a', f1) = operand8 f a;
          (b', f2) = operand8 f1 b
      in asEuint8 f2 (max (ct8 f2 a') (ct8 f2 b')))"

text \<open>
  Modelled from the spec: min of the external FHE library (\<^verbatim>\<open>FHE.min\<close>).
\<close>

definition fhe_min :: "fhevm \<Rightarrow> euint8 \<Rightarrow> euint8 \<Rightarrow> euint8 \<times> fhevm" where
  "fhe_min f a b =
     (let (a', f1) = operand8 f a;
          (b', f2) = operand8 f1 b
      in asEuint8 f2 (min (ct8 f2 a') (ct8 f2 b')))"

text \<open>
  Modelled from the spec: width-cast of the external FHE library
  (\<^verbatim>\<open>FHE.asEuint32(euint8)\<close>), from 8 to 32 bits; the value is unchanged.
\<close>

definition castEuint32 :: "fhevm \<Rightarrow> euint8 \<Rightarrow> euint32 \<times> fhevm" where
  "castEuint32 f a = asEuint32 f (ucast (ct8 f a))"

text \<open>
  Modelled from the spec: add of the external FHE library (\<^verbatim>\<open>FHE.add\<close>). The result
  is a 32-bit value, the sum modulo \<open>2 ^ 32\<close>; there is no overflow error.
\<close>

definition fhe_add :: "fhevm \<Rightarrow> euint32 \<Rightarrow> euint32 \<Rightarrow> euint32 \<times> fhevm" where
  "fhe_add f a b =
     (let (a', f1) = operand32 f a;
          (b', f2) = operand32 f1 b
      in asEuint32 f2 (ct32 f2 a' + ct32 f2 b'))"

text \<open>
  Modelled from the spec: multiply of the external FHE library (\<^verbatim>\<open>FHE.mul\<close>). The
  result is a 32-bit value, the product modulo \<open>2 ^ 32\<close>; there is no overflow error.
\<close>

definition fhe_mul :: "fhevm \<Rightarrow> euint32 \<Rightarrow> euint32 \<Rightarrow> euint32 \<times> fhevm" where
  "fhe_mul f a b =
     (let (a', f1) = operand32 f a;
          (b', f2) = operand32 f1 b
      in asEuint32 f2 (ct32 f2 a' * ct32 f2 b'))"

text \<open>
  Modelled from the spec: divide-by-clear-scalar of the external FHE library
  (\<^verbatim>\<open>FHE.div(euint32, uint32)\<close>): the unsigned quotient, rounded down. A zero divisor
  is an error of its own.
\<close>

definition fhe_div :: "fhevm \<Rightarrow> euint32 \<Rightarrow> 32 word \<Rightarrow> error + euint32 \<times> fhevm" where
  "fhe_div f a b =
     (if b = 0 then Inl DivisionByZero
      else (let (a', f1) = operand32 f a
            in Inr (asEuint32 f1 (ct32 f1 a' div b))))"

text \<open>
  Modelled from the spec: the grant of the ACL manager (\<^verbatim>\<open>FHE.allow(handle, principal)\<close>).
  The relation only grows.
\<close>

definition allow :: "fhevm \<Rightarrow> handle \<Rightarrow> address \<Rightarrow> fhevm" where
  "allow f h a = f\<lparr>acl := insert (h, a) (acl f)\<rparr>"

text \<open>
  Modelled from the spec: the grant of the ACL manager to the contract itself
  (\<^verbatim>\<open>FHE.allowThis(handle)\<close>).
\<close>

definition allowThis :: "fhevm \<Rightarrow> address \<Rightarrow> handle \<Rightarrow> fhevm" where
  "allowThis f this h = allow f h this"

section \<open>The contract RatingNet\<close>

record Stats =
  sum_enc :: euint32
  count :: "32 word"

text \<open>
  The contract's storage: the mapping \<^verbatim>\<open>_statsBySubject\<close> (every key of a Solidity
  mapping exists, with zero fields until written), together with the contract's own
  address and the state of the ciphertext layer it calls.
\<close>

record RatingNet =
  fhe :: fhevm
  self :: address
  statsBySubject :: "address \<Rightarrow> Stats"

definition SCALE :: "32 word" where
  "SCALE = 100"

definition submitEncryptedScore ::
  "RatingNet \<Rightarrow> address \<Rightarrow> externalEuint8 \<Rightarrow> inputProof \<Rightarrow> error + RatingNet" where
  "submitEncryptedScore c subject cipherScore proof' =
     (case fromExternal (fhe c) cipherScore proof' of
        Inl e \<Rightarrow> Inl e
      | Inr (score, f1) \<Rightarrow>
          (let (one, f2) = asEuint8 f1 1;
               (five, f3) = asEuint8 f2 5;
               (m, f4) = fhe_max f3 score one;
               (clamped, f5) = fhe_min f4 m five;
               (clamped32, f6) = castEuint32 f5 clamped;
               s = statsBySubject c subject;
               (total, f7) = fhe_add f6 (sum_enc s) clamped32;
               s1 = s\<lparr>sum_enc := total\<rparr>;
               s2 = s1\<lparr>count := count s1 + 1\<rparr>;
               f8 = allowThis f7 (self c) (unwrap32 (sum_enc s2))
           in Inr (c\<lparr>fhe := f8, statsBySubject := (statsBySubject c)(subject := s2)\<rparr>)))"

definition getEncryptedAverage ::
  "RatingNet \<Rightarrow> address \<Rightarrow> address \<Rightarrow> error + euint32 \<times> RatingNet" where
  "getEncryptedAverage c sender subject =
     (let s = statsBySubject c subject
      in case (if count s = 0 then Inr (asEuint32 (fhe c) 0)
               else (let (k, f1) = asEuint32 (fhe c) SCALE;
                         (scaledSum, f2) = fhe_mul f1 (sum_enc s) k
                     in fhe_div f2 scaledSum (count s))) of
           Inl e \<Rightarrow> Inl e
         | Inr (avg, f3) \<Rightarrow>
             Inr (avg, c\<lparr>fhe := allowThis (allow f3 (unwrap32 avg) sender) (self c) (unwrap32 avg)\<rparr>))"

definition getEncryptedSum :: "RatingNet \<Rightarrow> address \<Rightarrow> euint32" where
  "getEncryptedSum c subject = sum_enc (statsBySubject c subject)"

definition getCount :: "RatingNet \<Rightarrow> address \<Rightarrow> 32 word" where
  "getCount c subject = count (statsBySubject c subject)"

text \<open>The contract as deployed at address \<open>this\<close>: nothing allocated, no grant, no rating.\<close>

definition deployed :: "address \<Rightarrow> RatingNet" where
  "deployed this =
     \<lparr>fhe = \<lparr>allocated = 0, ct8 = (\<lambda>_. 0), ct32 = (\<lambda>_. 0), acl = {}\<rparr>,
      self = this,
      statsBySubject = (\<lambda>_. \<lparr>sum_enc = Euint32 0, count = 0\<rparr>)\<rparr>"

text \<open>
  A transaction either commits the state its call returns or reverts, which leaves the
  state as it was before the call.
\<close>

datatype call =
  Submit address externalEuint8 inputProof
  | GetAverage address address

fun transact :: "RatingNet \<Rightarrow> call \<Rightarrow> RatingNet" where
  "transact c (Submit subject cipherScore proof') =
     (case submitEncryptedScore c subject cipherScore proof' of
        Inl e \<Rightarrow> c | Inr c' \<Rightarrow> c')"
| "transact c (GetAverage sender subject) =
     (case getEncryptedAverage c sender subject of
        Inl e \<Rightarrow> c | Inr (avg, c') \<Rightarrow> c')"

fun run :: "RatingNet \<Rightarrow> call list \<Rightarrow> RatingNet" where
  "run c [] = c"
| "run c (x # xs) = run (transact c x) xs"

section \<open>What an observer reads\<close>

text \<open>
  Modelled from the spec: decrypt of the external oracle, for one 32-bit handle. The
  oracle answers a principal that has an allow entry for the handle and is
  \<open>Unauthorized\<close> (\<open>None\<close>) otherwise.
\<close>

definition userDecrypt32 :: "fhevm \<Rightarrow> address \<Rightarrow> euint32 \<Rightarrow> 32 word option" where
  "userDecrypt32 f user h = (if (unwrap32 h, user) \<in> acl f then Some (ct32 f h) else None)"

text \<open>
  The cleartext of a subject's running sum: what the stored handle decrypts to, and zero
  while the handle is still uninitialised.
\<close>

definition sumValue :: "RatingNet \<Rightarrow> address \<Rightarrow> 32 word" where
  "sumValue c subject =
     (let h = getEncryptedSum c subject
      in if isInitialized32 h then ct32 (fhe c) h else 0)"

text \<open>
  What the caller of \<open>getEncryptedAverage\<close> obtains when it decrypts the returned
  handle in the state the call leaves behind.
\<close>

definition averageValue :: "RatingNet \<Rightarrow> address \<Rightarrow> address \<Rightarrow> 32 word option" where
  "averageValue c sender subject =
     (case getEncryptedAverage c sender subject of
        Inl e \<Rightarrow> None
      | Inr (avg, c') \<Rightarrow> userDecrypt32 (fhe c') sender avg)"


text \<open>A submission passes the import when its proof verifies and its width is 8 bits.\<close>

definition accepted :: "externalEuint8 \<Rightarrow> inputProof \<Rightarrow> bool" where
  "accepted cipherScore proof' = (verifies proof' \<and> ext_bits cipherScore = 8)"

text \<open>The rating a submission is worth: its value, clamped into \<open>[1, 5]\<close>.\<close>

definition clampedScore :: "externalEuint8 \<Rightarrow> 8 word" where
  "clampedScore cipherScore = min (max (of_nat (ext_value cipherScore)) 1) 5"

definition contribution :: "externalEuint8 \<Rightarrow> nat" where
  "contribution cipherScore = unat (clampedScore cipherScore)"

text \<open>The accepted submissions for a subject among a list of calls, in order.\<close>

fun submitted :: "address \<Rightarrow> call list \<Rightarrow> externalEuint8 list" where
  "submitted subject [] = []"
| "submitted subject (Submit s cipherScore proof' # xs) =
     (if s = subject \<and> accepted cipherScore proof'
      then cipherScore # submitted subject xs else submitted subject xs)"
| "submitted subject (GetAverage sender s # xs) = submitted subject xs"

text \<open>
  The invariant of the handle supply: every stored sum handle and every handle in the
  ACL has been allocated, so a new handle never coincides with one in use.
\<close>

definition handles_ok :: "RatingNet \<Rightarrow> bool" where
  "handles_ok c =
     ((\<forall>subject. unwrap32 (getEncryptedSum c subject) \<le> allocated (fhe c)) \<and>
      (\<forall>(h, a) \<in> acl (fhe c). h \<le> allocated (fhe c)))"

section \<open>The client's submit action\<close>

text \<open>
  The state of the React component \<^verbatim>\<open>App\<close> that \<^verbatim>\<open>canSubmit\<close> and \<^verbatim>\<open>submit\<close> read.
  \<open>fhevmInstance\<close> is \<^verbatim>\<open>fhevm.instance\<close>, \<open>signer\<close> is the signer (by its address),
  \<open>contractAddress\<close> is \<^verbatim>\<open>contractMeta.address\<close>; each is \<open>None\<close> while undefined.
  \<open>score\<close> is only ever set from the buttons \<open>1\<close> to \<open>5\<close> and starts at \<open>5\<close>, so it
  is an integer.
\<close>

record App =
  fhevmInstance :: "unit option"
  signer :: "string option"
  provider :: "unit option"
  contractAddress :: "string option"
  score :: int
  target :: string

text \<open>\<open>isAddress\<close> stands for \<^verbatim>\<open>ethers.isAddress\<close>.\<close>

definition canSubmit :: "(string \<Rightarrow> bool) \<Rightarrow> App \<Rightarrow> bool" where
  "canSubmit isAddress app =
     (fhevmInstance app \<noteq> None \<and>
      signer app \<noteq> None \<and>
      provider app \<noteq> None \<and>
      contractAddress app \<noteq> None \<and>
      score app \<ge> 1 \<and>
      score app \<le> 5 \<and>
      isAddress (target app))"

datatype status = Encrypting | Submitting | Submitted | Failed

text \<open>
  What \<^verbatim>\<open>submit\<close> does, in order: the status messages it sets, the value it hands to
  the SDK for 8-bit encryption (for a contract and a user), and the transaction it sends
  (target, ciphertext handle, proof).
\<close>

datatype event =
  SetStatus status
  | EncryptInput string string int
  | SendTransaction string externalEuint8 inputProof

text \<open>
  \<open>encrypt\<close> stands for the SDK's \<^verbatim>\<open>createEncryptedInput(..).add8(..).encrypt()\<close> and
  \<open>send\<close> for the contract call and \<^verbatim>\<open>tx.wait()\<close>; either may throw (\<open>None\<close>,
  \<open>False\<close>), which the \<^verbatim>\<open>catch\<close> block turns into the failure status.
\<close>

definition submit ::
  "(string \<Rightarrow> bool) \<Rightarrow>
   (string \<Rightarrow> string \<Rightarrow> int \<Rightarrow> (externalEuint8 \<times> inputProof) option) \<Rightarrow>
   (string \<Rightarrow> externalEuint8 \<Rightarrow> inputProof \<Rightarrow> bool) \<Rightarrow> App \<Rightarrow> event list" where
  "submit isAddress encrypt send app =
     (if \<not> canSubmit isAddress app then []
      else case fhevmInstance app of None \<Rightarrow> [] | Some inst \<Rightarrow>
        (case signer app of None \<Rightarrow> [] | Some signerAddress \<Rightarrow>
          (case contractAddress app of None \<Rightarrow> [] | Some contract \<Rightarrow>
             [SetStatus Encrypting, EncryptInput contract signerAddress (score app)] @
             (case encrypt contract signerAddress (score app) of
                None \<Rightarrow> [SetStatus Failed]
              | Some (h, inputProof) \<Rightarrow>
                  [SetStatus Submitting, SendTransaction (target app) h inputProof] @
                  (if send (target app) h inputProof
                   then [SetStatus Submitted] else [SetStatus Failed])))))"

section \<open>Lemmas on single calls\<close>

lemmas prims = fromExternal_def asEuint8_def asEuint32_def operand8_def operand32_def
  fhe_max_def fhe_min_def castEuint32_def fhe_add_def fhe_mul_def fhe_div_def
  allow_def allowThis_def isInitialized8_def isInitialized32_def

lemma submit_rejected:
  "\<not> accepted cipherScore proof' \<Longrightarrow>
   submitEncryptedScore c subject cipherScore proof' =
     Inl (if \<not> verifies proof' then InvalidInputProof else TypeMismatch)"
  by (simp add: submitEncryptedScore_def accepted_def fromExternal_def)

lemma submit_accepted:
  assumes "accepted cipherScore proof'"
  shows "\<exists>c'. submitEncryptedScore c subject cipherScore proof' = Inr c' \<and>
     self c' = self c \<and>
     getCount c' subject = getCount c subject + 1 \<and>
     (\<forall>other. other \<noteq> subject \<longrightarrow> statsBySubject c' other = statsBySubject c other) \<and>
     allocated (fhe c) < unwrap32 (getEncryptedSum c' subject) \<and>
     unwrap32 (getEncryptedSum c' subject) \<le> allocated (fhe c') \<and>
     allocated (fhe c) \<le> allocated (fhe c') \<and>
     acl (fhe c') = insert (unwrap32 (getEncryptedSum c' subject), self c) (acl (fhe c)) \<and>
     (\<forall>h. unwrap32 h \<le> allocated (fhe c) \<longrightarrow> ct32 (fhe c') h = ct32 (fhe c) h) \<and>
     (\<forall>h. unwrap8 h \<le> allocated (fhe c) \<longrightarrow> ct8 (fhe c') h = ct8 (fhe c) h) \<and>
     (unwrap32 (getEncryptedSum c subject) \<le> allocated (fhe c) \<longrightarrow>
        sumValue c' subject = sumValue c subject + ucast (clampedScore cipherScore))"
  using assms
  by (auto simp add: submitEncryptedScore_def accepted_def prims Let_def getCount_def
      getEncryptedSum_def sumValue_def clampedScore_def split: prod.splits)

lemma average_result:
  "\<exists>avg c'. getEncryptedAverage c sender subject = Inr (avg, c') \<and>
     self c' = self c \<and>
     statsBySubject c' = statsBySubject c \<and>
     allocated (fhe c) < unwrap32 avg \<and>
     unwrap32 avg \<le> allocated (fhe c') \<and>
     allocated (fhe c) \<le> allocated (fhe c') \<and>
     acl (fhe c') = insert (unwrap32 avg, self c) (insert (unwrap32 avg, sender) (acl (fhe c))) \<and>
     (\<forall>h. unwrap32 h \<le> allocated (fhe c) \<longrightarrow> ct32 (fhe c') h = ct32 (fhe c) h) \<and>
     (\<forall>h. ct8 (fhe c') h = ct8 (fhe c) h) \<and>
     (unwrap32 (getEncryptedSum c subject) \<le> allocated (fhe c) \<longrightarrow>
        ct32 (fhe c') avg =
          (if getCount c subject = 0 then 0
           else (sumValue c subject * 100) div getCount c subject))"
  by (auto simp add: getEncryptedAverage_def prims Let_def getCount_def SCALE_def
      getEncryptedSum_def sumValue_def split: prod.splits)

lemma handles_ok_deployed: "handles_ok (deployed this)"
  by (simp add: handles_ok_def deployed_def getEncryptedSum_def)

lemma handles_ok_sum: "handles_ok c \<Longrightarrow> unwrap32 (getEncryptedSum c x) \<le> allocated (fhe c)"
  by (simp add: handles_ok_def)

lemma handles_ok_acl: "handles_ok c \<Longrightarrow> (h, a) \<in> acl (fhe c) \<Longrightarrow> h \<le> allocated (fhe c)"
  by (auto simp: handles_ok_def)

lemma sumValue_frame:
  assumes "unwrap32 (getEncryptedSum c subject) \<le> allocated (fhe c)"
    and "statsBySubject c' subject = statsBySubject c subject"
    and "\<forall>h. unwrap32 h \<le> allocated (fhe c) \<longrightarrow> ct32 (fhe c') h = ct32 (fhe c) h"
  shows "sumValue c' subject = sumValue c subject"
  using assms by (simp add: sumValue_def getEncryptedSum_def Let_def)

section \<open>Lemmas on transactions and traces\<close>

lemma transact_submit_accepted:
  assumes "accepted cipherScore proof'" and "handles_ok c"
  shows "handles_ok (transact c (Submit s cipherScore proof')) \<and>
     self (transact c (Submit s cipherScore proof')) = self c \<and>
     getCount (transact c (Submit s cipherScore proof')) subject =
       getCount c subject + (if s = subject then 1 else 0) \<and>
     sumValue (transact c (Submit s cipherScore proof')) subject =
       sumValue c subject + (if s = subject then ucast (clampedScore cipherScore) else 0)"
proof -
  from submit_accepted [OF assms(1), of c s] obtain c' where
    r: "submitEncryptedScore c s cipherScore proof' = Inr c'"
    and self: "self c' = self c"
    and cnt: "getCount c' s = getCount c s + 1"
    and others: "\<forall>other. other \<noteq> s \<longrightarrow> statsBySubject c' other = statsBySubject c other"
    and fresh: "allocated (fhe c) < unwrap32 (getEncryptedSum c' s)"
    and bound: "unwrap32 (getEncryptedSum c' s) \<le> allocated (fhe c')"
    and mono: "allocated (fhe c) \<le> allocated (fhe c')"
    and acl: "acl (fhe c') = insert (unwrap32 (getEncryptedSum c' s), self c) (acl (fhe c))"
    and ct: "\<forall>h. unwrap32 h \<le> allocated (fhe c) \<longrightarrow> ct32 (fhe c') h = ct32 (fhe c) h"
    and sum: "unwrap32 (getEncryptedSum c s) \<le> allocated (fhe c) \<longrightarrow>
        sumValue c' s = sumValue c s + ucast (clampedScore cipherScore)"
    by blast
  have t: "transact c (Submit s cipherScore proof') = c'"
    by (simp add: r)
  note st = handles_ok_sum [OF assms(2)]
  note ac = handles_ok_acl [OF assms(2)]
  have "unwrap32 (getEncryptedSum c' x) \<le> allocated (fhe c')" for x
  proof (cases "x = s")
    case True
    then show ?thesis using bound by simp
  next
    case False
    with others have "getEncryptedSum c' x = getEncryptedSum c x"
      by (simp add: getEncryptedSum_def)
    then show ?thesis using st [of x] mono by simp
  qed
  moreover have "h \<le> allocated (fhe c')" if "(h, a) \<in> acl (fhe c')" for h a
    using that acl bound mono by (auto dest: ac)
  ultimately have ok: "handles_ok c'"
    by (auto simp: handles_ok_def)
  have c1: "getCount c' subject = getCount c subject + (if s = subject then 1 else 0)"
    using cnt others by (auto simp: getCount_def)
  have c2: "sumValue c' subject =
       sumValue c subject + (if s = subject then ucast (clampedScore cipherScore) else 0)"
  proof (cases "s = subject")
    case True
    then show ?thesis using sum st [of s] by simp
  next
    case False
    with others have "statsBySubject c' subject = statsBySubject c subject" by simp
    then have "sumValue c' subject = sumValue c subject"
      using st [of subject] ct by (intro sumValue_frame) auto
    with False show ?thesis by simp
  qed
  show ?thesis using ok self c1 c2 unfolding t by simp
qed

lemma transact_submit_rejected:
  "\<not> accepted cipherScore proof' \<Longrightarrow> transact c (Submit s cipherScore proof') = c"
  by (simp add: submit_rejected)

lemma transact_average:
  assumes "handles_ok c"
  shows "handles_ok (transact c (GetAverage sender s)) \<and>
     self (transact c (GetAverage sender s)) = self c \<and>
     statsBySubject (transact c (GetAverage sender s)) = statsBySubject c \<and>
     sumValue (transact c (GetAverage sender s)) subject = sumValue c subject"
proof -
  from average_result [of c sender s] obtain avg c' where
    r: "getEncryptedAverage c sender s = Inr (avg, c')"
    and self: "self c' = self c"
    and stats: "statsBySubject c' = statsBySubject c"
    and bound: "unwrap32 avg \<le> allocated (fhe c')"
    and mono: "allocated (fhe c) \<le> allocated (fhe c')"
    and acl: "acl (fhe c') = insert (unwrap32 avg, self c) (insert (unwrap32 avg, sender) (acl (fhe c)))"
    and ct: "\<forall>h. unwrap32 h \<le> allocated (fhe c) \<longrightarrow> ct32 (fhe c') h = ct32 (fhe c) h"
    by blast
  have t: "transact c (GetAverage sender s) = c'"
    by (simp add: r)
  note st = handles_ok_sum [OF assms]
  note ac = handles_ok_acl [OF assms]
  have "unwrap32 (getEncryptedSum c' x) \<le> allocated (fhe c')" for x
    using st [of x] mono stats by (simp add: getEncryptedSum_def)
  moreover have "h \<le> allocated (fhe c')" if "(h, a) \<in> acl (fhe c')" for h a
    using that acl bound mono by (auto dest: ac)
  ultimately have ok: "handles_ok c'"
    by (auto simp: handles_ok_def)
  have "sumValue c' subject = sumValue c subject"
    using st [of subject] ct stats by (intro sumValue_frame) auto
  then show ?thesis using ok self stats unfolding t by simp
qed

lemma ucast_contribution:
  "(ucast (clampedScore cipherScore) :: 32 word) = of_nat (contribution cipherScore)"
  by (simp add: contribution_def)

lemma run_stats:
  "handles_ok c \<Longrightarrow>
   handles_ok (run c calls) \<and>
   self (run c calls) = self c \<and>
   getCount (run c calls) subject =
     getCount c subject + of_nat (length (submitted subject calls)) \<and>
   sumValue (run c calls) subject =
     sumValue c subject + of_nat (sum_list (map contribution (submitted subject calls)))"
proof (induction calls arbitrary: c)
  case Nil
  then show ?case by simp
next
  case (Cons x xs)
  let ?c = "transact c x"
  have step: "handles_ok ?c \<and> self ?c = self c \<and>
      getCount ?c subject + of_nat (length (submitted subject xs)) =
        getCount c subject + of_nat (length (submitted subject (x # xs))) \<and>
      sumValue ?c subject + of_nat (sum_list (map contribution (submitted subject xs))) =
        sumValue c subject + of_nat (sum_list (map contribution (submitted subject (x # xs))))"
  proof (cases x)
    case (Submit s cipherScore proof')
    show ?thesis
    proof (cases "accepted cipherScore proof'")
      case True
      note t = transact_submit_accepted [OF True Cons.prems, of s subject]
      show ?thesis
      proof (cases "s = subject")
        case same: True
        with t True show ?thesis unfolding Submit
          by (simp add: ucast_contribution add.assoc del: transact.simps)
      next
        case False
        with t True show ?thesis unfolding Submit
          by (simp del: transact.simps)
      qed
    next
      case False
      then show ?thesis using Cons.prems unfolding Submit
        by (simp add: transact_submit_rejected del: transact.simps)
    qed
  next
    case (GetAverage sender s)
    from transact_average [OF Cons.prems, of sender s subject]
    show ?thesis unfolding GetAverage
      by (simp add: getCount_def del: transact.simps)
  qed
  from step Cons.IH [of ?c] show ?case
    by (simp only: run.simps)
qed

lemma submitted_replicate:
  "accepted cipherScore proof' \<Longrightarrow>
   submitted subject (replicate n (Submit subject cipherScore proof')) = replicate n cipherScore"
  by (induction n) simp_all

lemma run_replicate:
  assumes "accepted cipherScore proof'" and "handles_ok c"
  shows "handles_ok (run c (replicate n (Submit subject cipherScore proof'))) \<and>
     getCount (run c (replicate n (Submit subject cipherScore proof'))) subject =
       getCount c subject + of_nat n \<and>
     sumValue (run c (replicate n (Submit subject cipherScore proof'))) subject =
       sumValue c subject + of_nat (n * contribution cipherScore)"
  using run_stats [OF assms(2), of "replicate n (Submit subject cipherScore proof')" subject]
  by (simp add: submitted_replicate [OF assms(1)] sum_list_replicate)

lemma deployed_stats:
  "getCount (deployed this) subject = 0" "sumValue (deployed this) subject = 0"
  "getEncryptedSum (deployed this) subject = Euint32 0"
  by (simp_all add: deployed_def getCount_def sumValue_def getEncryptedSum_def isInitialized32_def)

lemma averageValue_ok:
  assumes "handles_ok c"
  shows "averageValue c sender subject =
     Some (if getCount c subject = 0 then 0
           else (sumValue c subject * 100) div getCount c subject)"
proof -
  from average_result [of c sender subject] obtain avg c' where
    r: "getEncryptedAverage c sender subject = Inr (avg, c')"
    and acl: "acl (fhe c') = insert (unwrap32 avg, self c) (insert (unwrap32 avg, sender) (acl (fhe c)))"
    and v: "unwrap32 (getEncryptedSum c subject) \<le> allocated (fhe c) \<longrightarrow>
        ct32 (fhe c') avg =
          (if getCount c subject = 0 then 0
           else (sumValue c subject * 100) div getCount c subject)"
    by blast
  from v handles_ok_sum [OF assms, of subject] acl show ?thesis
    by (simp add: averageValue_def r userDecrypt32_def)
qed

section \<open>The average (C1)\<close>






lemma submitted_map:
  "submitted subject (map (\<lambda>s. Submit subject \<lparr>ext_bits = 8, ext_value = unat s\<rparr> \<lparr>verifies = True\<rparr>) scores) =
     map (\<lambda>s. \<lparr>ext_bits = 8, ext_value = unat s\<rparr>) (scores :: 8 word list)"
  by (induction scores) (simp_all add: accepted_def)

lemma contribution_score:
  "contribution \<lparr>ext_bits = 8, ext_value = unat (s :: 8 word)\<rparr> = unat (min (max s 1) 5)"
  by (simp add: contribution_def clampedScore_def)

section \<open>The clamp (C2)\<close>



section \<open>Count and sum after a sequence of submissions (C3)\<close>

text \<open>
  C3, as amended. After any sequence of \<open>n\<close> successful submissions for a subject that
  was never written, with raw scores \<open>s\<^sub>1, \<dots>, s\<^sub>n\<close>, the subject's count is
  \<open>n mod 2 ^ 32\<close> and its sum decrypts to the sum of the clamped scores
  \<open>min (max s\<^sub>i 1) 5\<close> modulo \<open>2 ^ 32\<close>: both are 32-bit values. They are \<open>n\<close> and the
  sum of the clamped scores themselves as long as these stay below \<open>2 ^ 32\<close>.
\<close>

theorem C3_count_and_sum:
  fixes scores :: "8 word list"
  assumes "handles_ok c"
    and "statsBySubject c subject = \<lparr>sum_enc = Euint32 0, count = 0\<rparr>"
  shows "unat (getCount (run c (map (\<lambda>s. Submit subject
             \<lparr>ext_bits = 8, ext_value = unat s\<rparr> \<lparr>verifies = True\<rparr>) scores)) subject) =
           length scores mod 2 ^ 32 \<and>
         unat (sumValue (run c (map (\<lambda>s. Submit subject
             \<lparr>ext_bits = 8, ext_value = unat s\<rparr> \<lparr>verifies = True\<rparr>) scores)) subject) =
           (\<Sum>s\<leftarrow>scores. unat (min (max s 1) 5)) mod 2 ^ 32"
proof -
  let ?calls = "map (\<lambda>s. Submit subject
             \<lparr>ext_bits = 8, ext_value = unat s\<rparr> \<lparr>verifies = True\<rparr>) scores"
  have z: "getCount c subject = 0" "sumValue c subject = 0"
    using assms(2) by (simp_all add: getCount_def sumValue_def getEncryptedSum_def isInitialized32_def)
  have m: "map contribution (map (\<lambda>s. \<lparr>ext_bits = 8, ext_value = unat s\<rparr>) scores) =
      map (\<lambda>s. unat (min (max s 1) 5)) scores"
    by (simp add: contribution_score o_def)
  from run_stats [OF assms(1), of ?calls subject]
  have "getCount (run c ?calls) subject = of_nat (length scores)"
    and "sumValue (run c ?calls) subject = of_nat (\<Sum>s\<leftarrow>scores. unat (min (max s 1) 5))"
    unfolding submitted_map m z by simp_all
  then show ?thesis
    by (simp add: unat_of_nat)
qed

text \<open>The raw scores 0, 6, 255 and 3 count as 1, 5, 5 and 3: four ratings, sum 14.\<close>

theorem C3_count_and_sum_witness:
  "handles_ok (deployed 1) \<and>
   statsBySubject (deployed 1) 2 = \<lparr>sum_enc = Euint32 0, count = 0\<rparr> \<and>
   unat (getCount (run (deployed 1) (map (\<lambda>s. Submit 2
             \<lparr>ext_bits = 8, ext_value = unat s\<rparr> \<lparr>verifies = True\<rparr>) [0, 6, 255, 3 :: 8 word])) 2) = 4 \<and>
   unat (sumValue (run (deployed 1) (map (\<lambda>s. Submit 2
             \<lparr>ext_bits = 8, ext_value = unat s\<rparr> \<lparr>verifies = True\<rparr>) [0, 6, 255, 3 :: 8 word])) 2) = 14"
proof -
  have f: "statsBySubject (deployed 1) 2 = \<lparr>sum_enc = Euint32 0, count = 0\<rparr>"
    by (simp add: deployed_def)
  from C3_count_and_sum [OF handles_ok_deployed f, of "[0, 6, 255, 3]"] f
  show ?thesis
    by (simp add: handles_ok_deployed del: run.simps)
qed

text \<open>
  Count and sum are not \<open>n\<close> and the sum of the clamped scores at \<open>n = 2 ^ 32\<close>: after 4294967296 accepted ratings of 5
  for a subject of the freshly deployed contract, the count is 0, not \<open>n\<close>, and the sum
  decrypts to 0, not to \<open>5 * n\<close>.
\<close>

theorem C3_counterexample:
  "accepted \<lparr>ext_bits = 8, ext_value = 5\<rparr> \<lparr>verifies = True\<rparr> \<and>
   length (replicate 4294967296
       (Submit 2 \<lparr>ext_bits = 8, ext_value = 5\<rparr> \<lparr>verifies = True\<rparr>)) = 4294967296 \<and>
   unat (getCount (run (deployed 1) (replicate 4294967296
       (Submit 2 \<lparr>ext_bits = 8, ext_value = 5\<rparr> \<lparr>verifies = True\<rparr>))) 2) = 0 \<and>
   unat (sumValue (run (deployed 1) (replicate 4294967296
       (Submit 2 \<lparr>ext_bits = 8, ext_value = 5\<rparr> \<lparr>verifies = True\<rparr>))) 2) = 0"
proof -
  let ?x = "\<lparr>ext_bits = 8, ext_value = 5\<rparr>"
  let ?p = "\<lparr>verifies = True\<rparr>"
  have a: "accepted ?x ?p" by (simp add: accepted_def)
  have k: "contribution ?x = 5" by (simp add: contribution_def clampedScore_def)
  note r = run_replicate [OF a handles_ok_deployed, of 1 4294967296 2]
  from r have cnt: "getCount (run (deployed 1) (replicate 4294967296 (Submit 2 ?x ?p))) 2 = 0"
    by (simp add: deployed_stats)
  from r have sm: "sumValue (run (deployed 1) (replicate 4294967296 (Submit 2 ?x ?p))) 2 = 0"
    by (simp add: deployed_stats k)
  show ?thesis using a by (simp add: cnt sm)
qed

lemma transact_submit_fresh:
  assumes "accepted cipherScore proof'"
  shows "allocated (fhe c) <
     unwrap32 (getEncryptedSum (transact c (Submit subject cipherScore proof')) subject)"
proof -
  from submit_accepted [OF assms, of c subject] obtain c' where
    r: "submitEncryptedScore c subject cipherScore proof' = Inr c'"
    and fresh: "allocated (fhe c) < unwrap32 (getEncryptedSum c' subject)"
    by blast
  then show ?thesis by simp
qed

lemma transact_untouched:
  assumes "submitted subject [x] = []"
  shows "statsBySubject (transact c x) subject = statsBySubject c subject"
proof (cases x)
  case (Submit s cipherScore proof')
  show ?thesis
  proof (cases "accepted cipherScore proof'")
    case True
    with assms Submit have ne: "subject \<noteq> s" by auto
    from submit_accepted [OF True, of c s] obtain c' where
      r: "submitEncryptedScore c s cipherScore proof' = Inr c'"
      and others: "\<forall>other. other \<noteq> s \<longrightarrow> statsBySubject c' other = statsBySubject c other"
      by blast
    with ne show ?thesis unfolding Submit by simp
  next
    case False
    then show ?thesis unfolding Submit by (simp add: submit_rejected)
  qed
next
  case (GetAverage sender s)
  from average_result [of c sender s] show ?thesis unfolding GetAverage by auto
qed

lemma run_untouched:
  "submitted subject calls = [] \<Longrightarrow>
   statsBySubject (run c calls) subject = statsBySubject c subject"
proof (induction calls arbitrary: c)
  case Nil
  then show ?case by simp
next
  case (Cons x xs)
  from Cons.prems have a: "submitted subject [x] = []" and b: "submitted subject xs = []"
    by (cases x; simp split: if_splits)+
  from Cons.IH [OF b, of "transact c x"] transact_untouched [OF a, of c]
  show ?case by (simp del: transact.simps)
qed

section \<open>Untouched subjects and the joint update of sum and count (C4)\<close>

text \<open>
  C4. A subject for which no submission was ever accepted has the count \<open>0\<close> and an
  uninitialised sum handle, which stands for an encrypted zero; reading the average
  does not initialise it. The first accepted submission adds its clamped score to a
  zero prior sum and stores an initialised handle. A transaction either leaves both the
  count and the sum of a subject as they were or increments the count and replaces the
  sum by the old sum plus a clamped score: no state between transactions has one
  changed without the other.
\<close>

theorem C4_lazy_sum_atomic_update:
  assumes "handles_ok c"
  shows "(submitted subject calls = [] \<longrightarrow>
        statsBySubject (run (deployed this) calls) subject = \<lparr>sum_enc = Euint32 0, count = 0\<rparr> \<and>
        sumValue (run (deployed this) calls) subject = 0) \<and>
     (statsBySubject c subject = \<lparr>sum_enc = Euint32 0, count = 0\<rparr> \<longrightarrow>
        statsBySubject (transact c (GetAverage sender s)) subject =
          \<lparr>sum_enc = Euint32 0, count = 0\<rparr>) \<and>
     (statsBySubject c subject = \<lparr>sum_enc = Euint32 0, count = 0\<rparr> \<and>
      accepted cipherScore proof' \<longrightarrow>
        isInitialized32 (getEncryptedSum (transact c (Submit subject cipherScore proof')) subject) \<and>
        sumValue (transact c (Submit subject cipherScore proof')) subject =
          0 + ucast (clampedScore cipherScore) \<and>
        getCount (transact c (Submit subject cipherScore proof')) subject = 1) \<and>
     ((getCount (transact c x) subject = getCount c subject \<and>
       getEncryptedSum (transact c x) subject = getEncryptedSum c subject \<and>
       sumValue (transact c x) subject = sumValue c subject) \<or>
      (getCount (transact c x) subject = getCount c subject + 1 \<and>
       getEncryptedSum (transact c x) subject \<noteq> getEncryptedSum c subject \<and>
       (\<exists>cs. sumValue (transact c x) subject = sumValue c subject + ucast (clampedScore cs))))"
proof -
  have d: "statsBySubject (deployed this) subject = \<lparr>sum_enc = Euint32 0, count = 0\<rparr>"
    by (simp add: deployed_def)
  have z: "sumValue k subject = 0 \<and> getCount k subject = 0"
    if "statsBySubject k subject = \<lparr>sum_enc = Euint32 0, count = 0\<rparr>" for k
    using that by (simp add: sumValue_def getEncryptedSum_def isInitialized32_def getCount_def)
  have p1: "submitted subject calls = [] \<longrightarrow>
        statsBySubject (run (deployed this) calls) subject = \<lparr>sum_enc = Euint32 0, count = 0\<rparr> \<and>
        sumValue (run (deployed this) calls) subject = 0"
    using run_untouched [of subject calls "deployed this"] d z by auto
  have p2: "statsBySubject c subject = \<lparr>sum_enc = Euint32 0, count = 0\<rparr> \<longrightarrow>
        statsBySubject (transact c (GetAverage sender s)) subject =
          \<lparr>sum_enc = Euint32 0, count = 0\<rparr>"
    using transact_average [OF assms, of sender s subject] by simp
  have p3: "isInitialized32 (getEncryptedSum (transact c (Submit subject cipherScore proof')) subject) \<and>
        sumValue (transact c (Submit subject cipherScore proof')) subject =
          0 + ucast (clampedScore cipherScore) \<and>
        getCount (transact c (Submit subject cipherScore proof')) subject = 1"
    if f: "statsBySubject c subject = \<lparr>sum_enc = Euint32 0, count = 0\<rparr>"
      and a: "accepted cipherScore proof'"
  proof -
    from transact_submit_fresh [OF a, of c subject]
    have "isInitialized32 (getEncryptedSum (transact c (Submit subject cipherScore proof')) subject)"
      by (simp add: isInitialized32_def del: transact.simps)
    with transact_submit_accepted [OF a assms, of subject subject] z [OF f]
    show ?thesis by (simp del: transact.simps)
  qed
  have p4: "(getCount (transact c x) subject = getCount c subject \<and>
       getEncryptedSum (transact c x) subject = getEncryptedSum c subject \<and>
       sumValue (transact c x) subject = sumValue c subject) \<or>
      (getCount (transact c x) subject = getCount c subject + 1 \<and>
       getEncryptedSum (transact c x) subject \<noteq> getEncryptedSum c subject \<and>
       (\<exists>cs. sumValue (transact c x) subject = sumValue c subject + ucast (clampedScore cs)))"
  proof (cases x)
    case (Submit s' cs pf)
    show ?thesis
    proof (cases "accepted cs pf \<and> s' = subject")
      case True
      then have a: "accepted cs pf" and e: "s' = subject" by simp_all
      from transact_submit_fresh [OF a, of c subject] handles_ok_sum [OF assms, of subject]
      have "getEncryptedSum (transact c x) subject \<noteq> getEncryptedSum c subject"
        unfolding Submit e by (auto simp del: transact.simps)
      with transact_submit_accepted [OF a assms, of subject subject]
      show ?thesis unfolding Submit e by (auto simp del: transact.simps)
    next
      case False
      show ?thesis
      proof (cases "accepted cs pf")
        case a: True
        with False have ne: "s' \<noteq> subject" by simp
        from transact_untouched [of subject x c] ne
        have "statsBySubject (transact c x) subject = statsBySubject c subject"
          unfolding Submit by (auto simp del: transact.simps)
        with transact_submit_accepted [OF a assms, of s' subject] ne
        show ?thesis unfolding Submit
          by (simp add: getCount_def getEncryptedSum_def del: transact.simps)
      next
        case r: False
        then show ?thesis unfolding Submit by (simp add: transact_submit_rejected del: transact.simps)
      qed
    qed
  next
    case (GetAverage sender' s')
    from transact_average [OF assms, of sender' s' subject]
    show ?thesis unfolding GetAverage
      by (simp add: getCount_def getEncryptedSum_def del: transact.simps)
  qed
  from p1 p2 p3 p4 show ?thesis by blast
qed


text \<open>
  On the freshly deployed contract: subject 2 stays untouched by an average query and a
  rating for subject 4, and a first rating with raw score 0 for subject 2 gives the sum
  1 and the count 1.
\<close>

theorem C4_lazy_sum_atomic_update_witness:
  "handles_ok (deployed 1) \<and>
   submitted 2 [GetAverage 3 2, Submit 4 \<lparr>ext_bits = 8, ext_value = 5\<rparr> \<lparr>verifies = True\<rparr>] = [] \<and>
   statsBySubject (run (deployed 1)
     [GetAverage 3 2, Submit 4 \<lparr>ext_bits = 8, ext_value = 5\<rparr> \<lparr>verifies = True\<rparr>]) 2 =
       \<lparr>sum_enc = Euint32 0, count = 0\<rparr> \<and>
   statsBySubject (deployed 1) 2 = \<lparr>sum_enc = Euint32 0, count = 0\<rparr> \<and>
   accepted \<lparr>ext_bits = 8, ext_value = 0\<rparr> \<lparr>verifies = True\<rparr> \<and>
   sumValue (transact (deployed 1)
     (Submit 2 \<lparr>ext_bits = 8, ext_value = 0\<rparr> \<lparr>verifies = True\<rparr>)) 2 = 1 \<and>
   getCount (transact (deployed 1)
     (Submit 2 \<lparr>ext_bits = 8, ext_value = 0\<rparr> \<lparr>verifies = True\<rparr>)) 2 = 1"
proof -
  have f: "statsBySubject (deployed 1) 2 = \<lparr>sum_enc = Euint32 0, count = 0\<rparr>"
    by (simp add: deployed_def)
  have a: "accepted \<lparr>ext_bits = 8, ext_value = 0\<rparr> \<lparr>verifies = True\<rparr>"
    by (simp add: accepted_def)
  have k: "clampedScore \<lparr>ext_bits = 8, ext_value = 0\<rparr> = 1"
    by (simp add: clampedScore_def)
  have u: "submitted 2 [GetAverage 3 2, Submit 4 \<lparr>ext_bits = 8, ext_value = 5\<rparr> \<lparr>verifies = True\<rparr>] = []"
    by simp
  from C4_lazy_sum_atomic_update [OF handles_ok_deployed, of 2
      "[GetAverage 3 2, Submit 4 \<lparr>ext_bits = 8, ext_value = 5\<rparr> \<lparr>verifies = True\<rparr>]" 1 1 3 2
      "\<lparr>ext_bits = 8, ext_value = 0\<rparr>" "\<lparr>verifies = True\<rparr>"] f a u
  show ?thesis
    by (simp add: handles_ok_deployed k del: run.simps transact.simps submitted.simps)
qed

section \<open>Rejected submissions (C5)\<close>

text \<open>
  C5. \<open>submitEncryptedScore\<close> fails with \<open>InvalidInputProof\<close> when the proof does not
  verify and with \<open>TypeMismatch\<close> when the proof verifies and the ciphertext is not 8
  bits wide; with a verifying proof and an 8-bit ciphertext it succeeds. Every failure
  leaves the whole state, and so every subject's sum handle and count, exactly as before
  the call.
\<close>

theorem C5_rejected_before_mutation:
  "(\<not> verifies proof' \<longrightarrow>
      submitEncryptedScore c subject cipherScore proof' = Inl InvalidInputProof) \<and>
   (verifies proof' \<and> ext_bits cipherScore \<noteq> 8 \<longrightarrow>
      submitEncryptedScore c subject cipherScore proof' = Inl TypeMismatch) \<and>
   (verifies proof' \<and> ext_bits cipherScore = 8 \<longrightarrow>
      (\<exists>c'. submitEncryptedScore c subject cipherScore proof' = Inr c')) \<and>
   (\<forall>e. submitEncryptedScore c subject cipherScore proof' = Inl e \<longrightarrow>
      transact c (Submit subject cipherScore proof') = c)"
proof -
  have "\<exists>c'. submitEncryptedScore c subject cipherScore proof' = Inr c'"
    if "verifies proof' \<and> ext_bits cipherScore = 8"
    using submit_accepted [of cipherScore proof' c subject] that
    by (auto simp: accepted_def)
  moreover have "submitEncryptedScore c subject cipherScore proof' = Inl InvalidInputProof"
    if "\<not> verifies proof'"
    using that by (simp add: submit_rejected accepted_def)
  moreover have "submitEncryptedScore c subject cipherScore proof' = Inl TypeMismatch"
    if "verifies proof' \<and> ext_bits cipherScore \<noteq> 8"
    using that by (simp add: submit_rejected accepted_def)
  ultimately show ?thesis by auto
qed

text \<open>A proof that does not verify, and a 16-bit ciphertext, on the deployed contract.\<close>

theorem C5_rejected_before_mutation_witness:
  "submitEncryptedScore (deployed 1) 2 \<lparr>ext_bits = 8, ext_value = 3\<rparr> \<lparr>verifies = False\<rparr> =
     Inl InvalidInputProof \<and>
   transact (deployed 1) (Submit 2 \<lparr>ext_bits = 8, ext_value = 3\<rparr> \<lparr>verifies = False\<rparr>) =
     deployed 1 \<and>
   submitEncryptedScore (deployed 1) 2 \<lparr>ext_bits = 16, ext_value = 3\<rparr> \<lparr>verifies = True\<rparr> =
     Inl TypeMismatch \<and>
   transact (deployed 1) (Submit 2 \<lparr>ext_bits = 16, ext_value = 3\<rparr> \<lparr>verifies = True\<rparr>) =
     deployed 1"
  using C5_rejected_before_mutation [where proof' = "\<lparr>verifies = False\<rparr>" and c = "deployed 1"
      and subject = 2 and cipherScore = "\<lparr>ext_bits = 8, ext_value = 3\<rparr>"]
    C5_rejected_before_mutation [where proof' = "\<lparr>verifies = True\<rparr>" and c = "deployed 1"
      and subject = 2 and cipherScore = "\<lparr>ext_bits = 16, ext_value = 3\<rparr>"]
  by (simp del: transact.simps)

section \<open>The grants of an average query (C6)\<close>

text \<open>
  C6. Every call of \<open>getEncryptedAverage\<close> succeeds, and it grants the caller and the
  contract itself permission on the returned handle: these two entries are all it adds
  to the ACL. The stored sum handle and the count of every subject are unchanged, and in
  a reachable state so is the cleartext of every subject's sum.
\<close>

theorem C6_average_grants:
  "\<exists>avg c'. getEncryptedAverage c sender subject = Inr (avg, c') \<and>
     (unwrap32 avg, sender) \<in> acl (fhe c') \<and>
     (unwrap32 avg, self c) \<in> acl (fhe c') \<and>
     acl (fhe c') = acl (fhe c) \<union> {(unwrap32 avg, sender), (unwrap32 avg, self c)} \<and>
     statsBySubject c' = statsBySubject c \<and>
     self c' = self c \<and>
     (handles_ok c \<longrightarrow> (\<forall>s. sumValue c' s = sumValue c s))"
proof -
  from average_result [of c sender subject] obtain avg c' where
    r: "getEncryptedAverage c sender subject = Inr (avg, c')"
    and self: "self c' = self c"
    and stats: "statsBySubject c' = statsBySubject c"
    and acl: "acl (fhe c') = insert (unwrap32 avg, self c) (insert (unwrap32 avg, sender) (acl (fhe c)))"
    and ct: "\<forall>h. unwrap32 h \<le> allocated (fhe c) \<longrightarrow> ct32 (fhe c') h = ct32 (fhe c) h"
    by blast
  have "sumValue c' s = sumValue c s" if "handles_ok c" for s
    using handles_ok_sum [OF that, of s] ct stats by (intro sumValue_frame) auto
  with r self stats acl show ?thesis by auto
qed

text \<open>
  Caller 3 asks for the average of subject 2 on the contract deployed at address 1: the
  returned handle is handle 1, granted to 3 and to 1.
\<close>

theorem C6_average_grants_witness:
  "handles_ok (deployed 1) \<and>
   acl (fhe (transact (deployed 1) (GetAverage 3 2))) = {(1, 3), (1, 1)} \<and>
   statsBySubject (transact (deployed 1) (GetAverage 3 2)) = statsBySubject (deployed 1) \<and>
   sumValue (transact (deployed 1) (GetAverage 3 2)) 2 = sumValue (deployed 1) 2"
proof -
  from C6_average_grants [of "deployed 1" 3 2] obtain avg c' where
    r: "getEncryptedAverage (deployed 1) 3 2 = Inr (avg, c')"
    and acl: "acl (fhe c') =
        acl (fhe (deployed 1)) \<union> {(unwrap32 avg, 3), (unwrap32 avg, self (deployed 1))}"
    and stats: "statsBySubject c' = statsBySubject (deployed 1)"
    and sums: "handles_ok (deployed 1) \<longrightarrow> (\<forall>s. sumValue c' s = sumValue (deployed 1) s)"
    by blast
  have t: "transact (deployed 1) (GetAverage 3 2) = c'"
    by (simp add: r)
  from r have avg: "avg = Euint32 1"
    by (auto simp add: getEncryptedAverage_def deployed_def prims Let_def)
  have d: "acl (fhe (deployed 1)) = {}" "self (deployed 1) = 1"
    by (simp_all add: deployed_def)
  from acl stats sums show ?thesis unfolding t
    by (simp add: d avg handles_ok_deployed)
qed

lemma transact_count:
  "getCount (transact c x) subject =
     getCount c subject + of_nat (length (submitted subject [x]))"
proof (cases "submitted subject [x] = []")
  case True
  from transact_untouched [OF True, of c] True show ?thesis
    by (simp add: getCount_def del: transact.simps submitted.simps)
next
  case False
  then obtain cipherScore proof' where x: "x = Submit subject cipherScore proof'"
    and a: "accepted cipherScore proof'"
    by (cases x) (auto split: if_splits)
  from submit_accepted [OF a, of c subject] show ?thesis
    unfolding x using a by auto
qed

lemma word32_succ_le:
  assumes "(w :: 32 word) \<noteq> 4294967295"
  shows "w \<le> w + 1"
proof -
  have "unat w \<noteq> 4294967295"
  proof
    assume "unat w = 4294967295"
    then have "of_nat (unat w) = (of_nat 4294967295 :: 32 word)" by simp
    with assms show False by simp
  qed
  moreover have "unat w < 2 ^ 32"
    using unsigned_less [of w] by simp
  ultimately have "(unat w + 1) mod 2 ^ 32 = unat w + 1"
    by simp
  then show ?thesis
    by (simp add: word_le_nat_alt unat_word_ariths)
qed

section \<open>The count (C7)\<close>

text \<open>
  C7. Across every transaction a subject's count either stays as it is or grows by
  one: it grows by exactly one, in plain 32-bit addition, on an accepted submission for
  that subject and is unchanged by everything else. So the count never decreases except
  at the one documented point: from the maximum 32-bit value a further accepted
  submission succeeds, without an error, and the count wraps to zero.
\<close>

theorem C7_count_steps:
  "getCount (transact c x) subject =
     getCount c subject + of_nat (length (submitted subject [x])) \<and>
   length (submitted subject [x]) \<le> 1 \<and>
   (getCount c subject \<noteq> 4294967295 \<longrightarrow>
      getCount c subject \<le> getCount (transact c x) subject) \<and>
   (accepted cipherScore proof' \<longrightarrow>
      (\<exists>c'. submitEncryptedScore c subject cipherScore proof' = Inr c' \<and>
         getCount c' subject = getCount c subject + 1 \<and>
         unat (getCount c' subject) = (unat (getCount c subject) + 1) mod 2 ^ 32)) \<and>
   (accepted cipherScore proof' \<and> getCount c subject = 4294967295 \<longrightarrow>
      (\<exists>c'. submitEncryptedScore c subject cipherScore proof' = Inr c' \<and>
         getCount c' subject = 0))"
proof -
  have l: "length (submitted subject [x]) \<le> 1"
    by (cases x) simp_all
  then have "length (submitted subject [x]) = 0 \<or> length (submitted subject [x]) = 1"
    by linarith
  then have m: "getCount c subject \<noteq> 4294967295 \<longrightarrow>
      getCount c subject \<le> getCount (transact c x) subject"
    unfolding transact_count [of c x subject]
    by (auto simp add: word32_succ_le simp del: submitted.simps)
  have s: "\<exists>c'. submitEncryptedScore c subject cipherScore proof' = Inr c' \<and>
         getCount c' subject = getCount c subject + 1 \<and>
         unat (getCount c' subject) = (unat (getCount c subject) + 1) mod 2 ^ 32"
    if "accepted cipherScore proof'"
    using submit_accepted [OF that, of c subject] by (auto simp add: unat_word_ariths)
  then have w: "\<exists>c'. submitEncryptedScore c subject cipherScore proof' = Inr c' \<and>
         getCount c' subject = 0"
    if "accepted cipherScore proof' \<and> getCount c subject = 4294967295"
    using that by auto
  from transact_count [of c x subject] l m s w show ?thesis
    by blast
qed

text \<open>
  After 4294967295 accepted ratings for subject 2 the count is at its maximum; one more
  accepted rating brings it to 0.
\<close>

theorem C7_count_steps_witness:
  "accepted \<lparr>ext_bits = 8, ext_value = 5\<rparr> \<lparr>verifies = True\<rparr> \<and>
   getCount (run (deployed 1) (replicate 4294967295
       (Submit 2 \<lparr>ext_bits = 8, ext_value = 5\<rparr> \<lparr>verifies = True\<rparr>))) 2 = 4294967295 \<and>
   getCount (transact (run (deployed 1) (replicate 4294967295
       (Submit 2 \<lparr>ext_bits = 8, ext_value = 5\<rparr> \<lparr>verifies = True\<rparr>)))
     (Submit 2 \<lparr>ext_bits = 8, ext_value = 5\<rparr> \<lparr>verifies = True\<rparr>)) 2 = 0"
proof -
  let ?x = "\<lparr>ext_bits = 8, ext_value = 5\<rparr>"
  let ?p = "\<lparr>verifies = True\<rparr>"
  let ?c = "run (deployed 1) (replicate 4294967295 (Submit 2 ?x ?p))"
  have a: "accepted ?x ?p" by (simp add: accepted_def)
  from run_replicate [OF a handles_ok_deployed, of 1 4294967295 2]
  have cnt: "getCount ?c 2 = 4294967295" by (simp add: deployed_stats)
  from C7_count_steps [of ?c "Submit 2 ?x ?p" 2 ?x ?p] a cnt
  obtain c' where "submitEncryptedScore ?c 2 ?x ?p = Inr c'" and "getCount c' 2 = 0"
    by blast
  then have "getCount (transact ?c (Submit 2 ?x ?p)) 2 = 0"
    by simp
  with a cnt show ?thesis by blast
qed

section \<open>Repeated average queries (C8)\<close>

text \<open>
  C8. Two consecutive calls of \<open>getEncryptedAverage\<close> for the same subject, with no
  submission in between, both succeed and return handles that their callers decrypt to
  the same value; the first handle still decrypts to that value after the second call.
  Each call is a transition of its own: the two handles differ, each call adds grants
  to the ACL, and the subjects' sum handles and counts stay as they were.
\<close>

theorem C8_repeated_average:
  assumes "handles_ok c"
  shows "\<exists>avg1 c1 avg2 c2 v.
     getEncryptedAverage c sender subject = Inr (avg1, c1) \<and>
     getEncryptedAverage c1 sender' subject = Inr (avg2, c2) \<and>
     userDecrypt32 (fhe c1) sender avg1 = Some v \<and>
     userDecrypt32 (fhe c2) sender' avg2 = Some v \<and>
     userDecrypt32 (fhe c2) sender avg1 = Some v \<and>
     avg2 \<noteq> avg1 \<and>
     statsBySubject c2 = statsBySubject c \<and>
     acl (fhe c) \<subset> acl (fhe c1) \<and> acl (fhe c1) \<subset> acl (fhe c2)"
proof -
  from average_result [of c sender subject] obtain avg1 c1 where
    r1: "getEncryptedAverage c sender subject = Inr (avg1, c1)"
    and self1: "self c1 = self c"
    and stats1: "statsBySubject c1 = statsBySubject c"
    and fresh1: "allocated (fhe c) < unwrap32 avg1"
    and bound1: "unwrap32 avg1 \<le> allocated (fhe c1)"
    and acl1: "acl (fhe c1) = insert (unwrap32 avg1, self c) (insert (unwrap32 avg1, sender) (acl (fhe c)))"
    by blast
  have t1: "transact c (GetAverage sender subject) = c1"
    by (simp add: r1)
  from transact_average [OF assms, of sender subject subject]
  have ok1: "handles_ok c1" and sum1: "sumValue c1 subject = sumValue c subject"
    unfolding t1 by simp_all
  from average_result [of c1 sender' subject] obtain avg2 c2 where
    r2: "getEncryptedAverage c1 sender' subject = Inr (avg2, c2)"
    and stats2: "statsBySubject c2 = statsBySubject c1"
    and fresh2: "allocated (fhe c1) < unwrap32 avg2"
    and acl2: "acl (fhe c2) = insert (unwrap32 avg2, self c1) (insert (unwrap32 avg2, sender') (acl (fhe c1)))"
    and ct2: "\<forall>h. unwrap32 h \<le> allocated (fhe c1) \<longrightarrow> ct32 (fhe c2) h = ct32 (fhe c1) h"
    by blast
  let ?v = "if getCount c subject = 0 then 0 else (sumValue c subject * 100) div getCount c subject"
  have cnt1: "getCount c1 subject = getCount c subject"
    using stats1 by (simp add: getCount_def)
  from averageValue_ok [OF assms, of sender subject]
  have v1: "userDecrypt32 (fhe c1) sender avg1 = Some ?v"
    by (simp add: averageValue_def r1)
  from averageValue_ok [OF ok1, of sender' subject]
  have v2: "userDecrypt32 (fhe c2) sender' avg2 = Some ?v"
    by (simp add: averageValue_def r2 cnt1 sum1)
  from v1 have "(unwrap32 avg1, sender) \<in> acl (fhe c1)" and "ct32 (fhe c1) avg1 = ?v"
    by (simp_all add: userDecrypt32_def split: if_splits)
  with acl2 ct2 bound1 have v3: "userDecrypt32 (fhe c2) sender avg1 = Some ?v"
    by (simp add: userDecrypt32_def)
  from fresh2 bound1 have ne: "avg2 \<noteq> avg1" by auto
  have "(unwrap32 avg1, sender) \<notin> acl (fhe c)"
    using handles_ok_acl [OF assms, of "unwrap32 avg1" sender] fresh1 by auto
  with acl1 have g1: "acl (fhe c) \<subset> acl (fhe c1)" by auto
  have "(unwrap32 avg2, sender') \<notin> acl (fhe c1)"
    using handles_ok_acl [OF ok1, of "unwrap32 avg2" sender'] fresh2 by auto
  with acl2 have g2: "acl (fhe c1) \<subset> acl (fhe c2)" by auto
  from r1 r2 v1 v2 v3 ne stats1 stats2 g1 g2 show ?thesis
    by (intro exI [of _ avg1] exI [of _ c1] exI [of _ avg2] exI [of _ c2] exI [of _ ?v]) simp
qed

text \<open>
  The example of the specification: the ratings 5, 3 and 3 give the sum 11 and the
  count 3; callers 9 and 8, one after the other, both decrypt 366.
\<close>

theorem C8_repeated_average_witness:
  "handles_ok (run (deployed 1)
      [Submit 2 \<lparr>ext_bits = 8, ext_value = 5\<rparr> \<lparr>verifies = True\<rparr>,
       Submit 2 \<lparr>ext_bits = 8, ext_value = 3\<rparr> \<lparr>verifies = True\<rparr>,
       Submit 2 \<lparr>ext_bits = 8, ext_value = 3\<rparr> \<lparr>verifies = True\<rparr>]) \<and>
   averageValue (transact (run (deployed 1)
      [Submit 2 \<lparr>ext_bits = 8, ext_value = 5\<rparr> \<lparr>verifies = True\<rparr>,
       Submit 2 \<lparr>ext_bits = 8, ext_value = 3\<rparr> \<lparr>verifies = True\<rparr>,
       Submit 2 \<lparr>ext_bits = 8, ext_value = 3\<rparr> \<lparr>verifies = True\<rparr>]) (GetAverage 9 2)) 8 2 =
   averageValue (run (deployed 1)
      [Submit 2 \<lparr>ext_bits = 8, ext_value = 5\<rparr> \<lparr>verifies = True\<rparr>,
       Submit 2 \<lparr>ext_bits = 8, ext_value = 3\<rparr> \<lparr>verifies = True\<rparr>,
       Submit 2 \<lparr>ext_bits = 8, ext_value = 3\<rparr> \<lparr>verifies = True\<rparr>]) 9 2 \<and>
   averageValue (run (deployed 1)
      [Submit 2 \<lparr>ext_bits = 8, ext_value = 5\<rparr> \<lparr>verifies = True\<rparr>,
       Submit 2 \<lparr>ext_bits = 8, ext_value = 3\<rparr> \<lparr>verifies = True\<rparr>,
       Submit 2 \<lparr>ext_bits = 8, ext_value = 3\<rparr> \<lparr>verifies = True\<rparr>]) 9 2 = Some 366"
proof -
  let ?calls = "[Submit 2 \<lparr>ext_bits = 8, ext_value = 5\<rparr> \<lparr>verifies = True\<rparr>,
       Submit 2 \<lparr>ext_bits = 8, ext_value = 3\<rparr> \<lparr>verifies = True\<rparr>,
       Submit 2 \<lparr>ext_bits = 8, ext_value = 3\<rparr> \<lparr>verifies = True\<rparr>]"
  let ?c = "run (deployed 1) ?calls"
  note r = run_stats [OF handles_ok_deployed, of 1 ?calls 2]
  from r have ok: "handles_ok ?c" by blast
  from r have cnt: "getCount ?c 2 = 3"
    by (simp add: deployed_stats accepted_def del: run.simps)
  from r have sm: "sumValue ?c 2 = 11"
    by (simp add: deployed_stats accepted_def contribution_def clampedScore_def del: run.simps)
  have v: "averageValue ?c 9 2 = Some 366"
    by (simp add: averageValue_ok [OF ok] cnt sm del: run.simps)
  from C8_repeated_average [OF ok, of 9 2 8] obtain avg1 c1 avg2 c2 w where
    r1: "getEncryptedAverage ?c 9 2 = Inr (avg1, c1)"
    and r2: "getEncryptedAverage c1 8 2 = Inr (avg2, c2)"
    and v1: "userDecrypt32 (fhe c1) 9 avg1 = Some w"
    and v2: "userDecrypt32 (fhe c2) 8 avg2 = Some w"
    by blast
  have t: "transact ?c (GetAverage 9 2) = c1"
    using r1 by (simp del: run.simps)
  have "averageValue c1 8 2 = averageValue ?c 9 2"
    using r1 r2 v1 v2 by (simp add: averageValue_def del: run.simps)
  with ok v show ?thesis unfolding t by blast
qed

section \<open>Encrypted 32-bit arithmetic (C9)\<close>

text \<open>
  C9. Neither call can fail because an encrypted value overflows. An accepted submission
  always succeeds and the new sum is the old sum plus the clamped score modulo
  \<open>2 ^ 32\<close>; \<open>getEncryptedAverage\<close> always succeeds and, for a positive count, divides
  the product \<open>sum * 100\<close> taken modulo \<open>2 ^ 32\<close>.
\<close>

theorem C9_wrapping_arithmetic:
  assumes "handles_ok c"
  shows "(accepted cipherScore proof' \<longrightarrow>
      (\<exists>c'. submitEncryptedScore c subject cipherScore proof' = Inr c' \<and>
         unat (sumValue c' subject) =
           (unat (sumValue c subject) + unat (clampedScore cipherScore)) mod 2 ^ 32)) \<and>
     (\<exists>v. averageValue c sender subject = Some v \<and>
        (getCount c subject \<noteq> 0 \<longrightarrow>
           unat v = (unat (sumValue c subject) * 100) mod 2 ^ 32 div unat (getCount c subject)))"
proof -
  have a: "\<exists>c'. submitEncryptedScore c subject cipherScore proof' = Inr c' \<and>
         unat (sumValue c' subject) =
           (unat (sumValue c subject) + unat (clampedScore cipherScore)) mod 2 ^ 32"
    if "accepted cipherScore proof'"
  proof -
    from submit_accepted [OF that, of c subject] handles_ok_sum [OF assms, of subject]
    obtain c' where r: "submitEncryptedScore c subject cipherScore proof' = Inr c'"
      and sm: "sumValue c' subject = sumValue c subject + ucast (clampedScore cipherScore)"
      by blast
    have "unat (clampedScore cipherScore) < 2 ^ 32"
      using unsigned_less [of "clampedScore cipherScore", where ?'a = nat] by simp
    then have "unat (ucast (clampedScore cipherScore) :: 32 word) = unat (clampedScore cipherScore)"
      by (simp add: unsigned_ucast_eq take_bit_nat_eq_self)
    with r sm show ?thesis by (simp add: unat_word_ariths)
  qed
  have "unat (sumValue c subject * 100 div getCount c subject) =
      (unat (sumValue c subject) * 100) mod 2 ^ 32 div unat (getCount c subject)"
    by (simp add: unat_div unat_word_ariths)
  then have b: "\<exists>v. averageValue c sender subject = Some v \<and>
        (getCount c subject \<noteq> 0 \<longrightarrow>
           unat v = (unat (sumValue c subject) * 100) mod 2 ^ 32 div unat (getCount c subject))"
    by (simp add: averageValue_ok [OF assms])
  from a b show ?thesis by blast
qed

text \<open>
  After 858993459 accepted ratings of 5 the sum is \<open>2 ^ 32 - 1\<close>. One more rating of 5
  wraps it to 4, and the average of that state decrypts to 4, the quotient of the wrapped
  product 4294967196 by the count.
\<close>

theorem C9_wrapping_arithmetic_witness:
  "handles_ok (run (deployed 1) (replicate 858993459
       (Submit 2 \<lparr>ext_bits = 8, ext_value = 5\<rparr> \<lparr>verifies = True\<rparr>))) \<and>
   accepted \<lparr>ext_bits = 8, ext_value = 5\<rparr> \<lparr>verifies = True\<rparr> \<and>
   unat (sumValue (run (deployed 1) (replicate 858993459
       (Submit 2 \<lparr>ext_bits = 8, ext_value = 5\<rparr> \<lparr>verifies = True\<rparr>))) 2) = 4294967295 \<and>
   unat (sumValue (transact (run (deployed 1) (replicate 858993459
       (Submit 2 \<lparr>ext_bits = 8, ext_value = 5\<rparr> \<lparr>verifies = True\<rparr>)))
     (Submit 2 \<lparr>ext_bits = 8, ext_value = 5\<rparr> \<lparr>verifies = True\<rparr>)) 2) = 4 \<and>
   map_option unat (averageValue (run (deployed 1) (replicate 858993459
       (Submit 2 \<lparr>ext_bits = 8, ext_value = 5\<rparr> \<lparr>verifies = True\<rparr>))) 3 2) = Some 4"
proof -
  let ?x = "\<lparr>ext_bits = 8, ext_value = 5\<rparr>"
  let ?p = "\<lparr>verifies = True\<rparr>"
  let ?c = "run (deployed 1) (replicate 858993459 (Submit 2 ?x ?p))"
  have a: "accepted ?x ?p" by (simp add: accepted_def)
  have k: "contribution ?x = 5" "clampedScore ?x = 5"
    by (simp_all add: contribution_def clampedScore_def)
  note r = run_replicate [OF a handles_ok_deployed, of 1 858993459 2]
  from r have ok: "handles_ok ?c" by blast
  from r have cnt: "getCount ?c 2 = 858993459" by (simp add: deployed_stats)
  from r have sm: "sumValue ?c 2 = 4294967295" by (simp add: deployed_stats k)
  from C9_wrapping_arithmetic [OF ok, of ?x ?p 2 3] a obtain c' v where
    s: "submitEncryptedScore ?c 2 ?x ?p = Inr c'"
    and s': "unat (sumValue c' 2) = (unat (sumValue ?c 2) + unat (clampedScore ?x)) mod 2 ^ 32"
    and v: "averageValue ?c 3 2 = Some v"
    and v': "getCount ?c 2 \<noteq> 0 \<longrightarrow>
           unat v = (unat (sumValue ?c 2) * 100) mod 2 ^ 32 div unat (getCount ?c 2)"
    by blast
  have t: "transact ?c (Submit 2 ?x ?p) = c'"
    using s by simp
  from s' have "unat (sumValue c' 2) = 4" by (simp add: sm k)
  moreover from v' have "unat v = 4" by (simp add: sm cnt)
  ultimately show ?thesis using ok a v unfolding t by (simp add: sm)
qed

lemma handles_ok_reachable: "handles_ok (run (deployed this) calls)"
  using run_stats [OF handles_ok_deployed, of this calls] by blast

section \<open>The client's gate (C10)\<close>

lemma clamp_identity:
  assumes "1 \<le> v" and "v \<le> (5 :: int)"
  shows "min (max (of_int v) 1) 5 = (of_int v :: 8 word)"
proof -
  from assms have "v = 1 \<or> v = 2 \<or> v = 3 \<or> v = 4 \<or> v = 5" by arith
  then show ?thesis by auto
qed

lemma clampedScore_identity:
  assumes "1 \<le> v" and "v \<le> (5 :: int)" and "ext_value h = nat v"
  shows "clampedScore h = of_nat (ext_value h)"
proof -
  from assms(1) have "(of_nat (nat v) :: 8 word) = of_int v" by simp
  with clamp_identity [OF assms(1,2)] assms(3) show ?thesis
    by (simp add: clampedScore_def)
qed

lemma submit_events:
  assumes "submit isAddress encrypt send app \<noteq> []"
  shows "canSubmit isAddress app \<and>
    (\<exists>contract user. contractAddress app = Some contract \<and> signer app = Some user \<and>
       (submit isAddress encrypt send app =
          [SetStatus Encrypting, EncryptInput contract user (score app), SetStatus Failed] \<and>
        encrypt contract user (score app) = None \<or>
        (\<exists>h inputProof outcome. encrypt contract user (score app) = Some (h, inputProof) \<and>
           submit isAddress encrypt send app =
             [SetStatus Encrypting, EncryptInput contract user (score app), SetStatus Submitting,
              SendTransaction (target app) h inputProof, SetStatus outcome])))"
proof -
  from assms have c: "canSubmit isAddress app"
    by (auto simp add: submit_def split: if_splits)
  from assms c obtain inst where i: "fhevmInstance app = Some inst"
    by (cases "fhevmInstance app") (auto simp add: submit_def)
  from assms c i obtain user where u: "signer app = Some user"
    by (cases "signer app") (auto simp add: submit_def)
  from assms c i u obtain contract where k: "contractAddress app = Some contract"
    by (cases "contractAddress app") (auto simp add: submit_def)
  show ?thesis
  proof (cases "encrypt contract user (score app)")
    case None
    with c i u k show ?thesis by (simp add: submit_def)
  next
    case (Some r)
    obtain h inputProof where r: "r = (h, inputProof)" by (cases r)
    from c i u k Some r show ?thesis by (simp add: submit_def)
  qed
qed

text \<open>
  C10. \<open>canSubmit\<close> holds only when the FHEVM instance, the signer, the provider and the
  contract address are present, the selected score is between 1 and 5, and the target is
  an address for \<open>isAddress\<close>. When \<open>canSubmit\<close> is false, \<open>submit\<close> does nothing: it
  neither encrypts nor sends. Whatever it encrypts is the selected score, between 1 and
  5, a value the contract's clamp leaves as it is; whatever it sends goes to the target,
  with the ciphertext and proof the encryption returned, and a ciphertext of the selected
  score contributes this score itself to the sum.
\<close>

theorem C10_submit_gated:
  "(canSubmit isAddress app \<longrightarrow>
      fhevmInstance app \<noteq> None \<and> signer app \<noteq> None \<and> provider app \<noteq> None \<and>
      contractAddress app \<noteq> None \<and> 1 \<le> score app \<and> score app \<le> 5 \<and>
      isAddress (target app)) \<and>
   (\<not> canSubmit isAddress app \<longrightarrow> submit isAddress encrypt send app = []) \<and>
   (\<forall>contract user v. EncryptInput contract user v \<in> set (submit isAddress encrypt send app) \<longrightarrow>
      canSubmit isAddress app \<and> v = score app \<and> 1 \<le> v \<and> v \<le> 5 \<and>
      min (max (of_int v) 1) 5 = (of_int v :: 8 word)) \<and>
   (\<forall>t h p. SendTransaction t h p \<in> set (submit isAddress encrypt send app) \<longrightarrow>
      canSubmit isAddress app \<and> t = target app \<and> isAddress t \<and>
      (\<exists>contract user. encrypt contract user (score app) = Some (h, p) \<and>
         EncryptInput contract user (score app) \<in> set (submit isAddress encrypt send app)) \<and>
      (ext_value h = nat (score app) \<longrightarrow> clampedScore h = of_nat (ext_value h)))"
proof -
  have g: "canSubmit isAddress app \<longrightarrow>
      fhevmInstance app \<noteq> None \<and> signer app \<noteq> None \<and> provider app \<noteq> None \<and>
      contractAddress app \<noteq> None \<and> 1 \<le> score app \<and> score app \<le> 5 \<and>
      isAddress (target app)"
    by (simp add: canSubmit_def)
  have n: "\<not> canSubmit isAddress app \<longrightarrow> submit isAddress encrypt send app = []"
    by (simp add: submit_def)
  have e: "canSubmit isAddress app \<and> v = score app \<and> 1 \<le> v \<and> v \<le> 5 \<and>
      min (max (of_int v) 1) 5 = (of_int v :: 8 word)"
    if m: "EncryptInput contract user v \<in> set (submit isAddress encrypt send app)"
    for contract user v
  proof -
    from m have "submit isAddress encrypt send app \<noteq> []" by auto
    from submit_events [OF this] m have c: "canSubmit isAddress app" and v: "v = score app"
      by auto
    from c have "1 \<le> score app" "score app \<le> 5" by (simp_all add: canSubmit_def)
    with c v clamp_identity [of v] show ?thesis by simp
  qed
  have t: "canSubmit isAddress app \<and> t = target app \<and> isAddress t \<and>
      (\<exists>contract user. encrypt contract user (score app) = Some (h, p) \<and>
         EncryptInput contract user (score app) \<in> set (submit isAddress encrypt send app)) \<and>
      (ext_value h = nat (score app) \<longrightarrow> clampedScore h = of_nat (ext_value h))"
    if m: "SendTransaction t h p \<in> set (submit isAddress encrypt send app)" for t h p
  proof -
    from m have "submit isAddress encrypt send app \<noteq> []" by auto
    from submit_events [OF this] m have c: "canSubmit isAddress app" and t: "t = target app"
      and s: "\<exists>contract user. encrypt contract user (score app) = Some (h, p) \<and>
         EncryptInput contract user (score app) \<in> set (submit isAddress encrypt send app)"
      by auto
    from c have r: "1 \<le> score app" "score app \<le> 5" "isAddress (target app)"
      by (simp_all add: canSubmit_def)
    with c t s clampedScore_identity [OF r(1,2), of h] show ?thesis by simp
  qed
  from g n e t show ?thesis by blast
qed

text \<open>
  With everything present and the score 4, \<open>submit\<close> encrypts 4 and sends it; with the
  score 6 it does nothing.
\<close>

theorem C10_submit_gated_witness:
  "canSubmit (\<lambda>t. length t = 42)
     \<lparr>fhevmInstance = Some (), signer = Some ''0xA'', provider = Some (),
      contractAddress = Some ''0xC'', score = 4, target = replicate 42 CHR ''0''\<rparr> \<and>
   submit (\<lambda>t. length t = 42)
     (\<lambda>contract user v. Some (\<lparr>ext_bits = 8, ext_value = nat v\<rparr>, \<lparr>verifies = True\<rparr>))
     (\<lambda>t h p. True)
     \<lparr>fhevmInstance = Some (), signer = Some ''0xA'', provider = Some (),
      contractAddress = Some ''0xC'', score = 4, target = replicate 42 CHR ''0''\<rparr> =
     [SetStatus Encrypting, EncryptInput ''0xC'' ''0xA'' 4, SetStatus Submitting,
      SendTransaction (replicate 42 CHR ''0'') \<lparr>ext_bits = 8, ext_value = 4\<rparr> \<lparr>verifies = True\<rparr>,
      SetStatus Submitted] \<and>
   clampedScore \<lparr>ext_bits = 8, ext_value = 4\<rparr> = 4 \<and>
   \<not> canSubmit (\<lambda>t. length t = 42)
     \<lparr>fhevmInstance = Some (), signer = Some ''0xA'', provider = Some (),
      contractAddress = Some ''0xC'', score = 6, target = replicate 42 CHR ''0''\<rparr> \<and>
   submit (\<lambda>t. length t = 42)
     (\<lambda>contract user v. Some (\<lparr>ext_bits = 8, ext_value = nat v\<rparr>, \<lparr>verifies = True\<rparr>))
     (\<lambda>t h p. True)
     \<lparr>fhevmInstance = Some (), signer = Some ''0xA'', provider = Some (),
      contractAddress = Some ''0xC'', score = 6, target = replicate 42 CHR ''0''\<rparr> = []"
proof -
  let ?isAddress = "\<lambda>t :: string. length t = 42"
  let ?encrypt = "\<lambda>(contract :: string) (user :: string) v.
     Some (\<lparr>ext_bits = 8, ext_value = nat v\<rparr>, \<lparr>verifies = True\<rparr>)"
  let ?send = "\<lambda>(t :: string) (h :: externalEuint8) (p :: inputProof). True"
  let ?app = "\<lparr>fhevmInstance = Some (), signer = Some ''0xA'', provider = Some (),
      contractAddress = Some ''0xC'', score = 4, target = replicate 42 CHR ''0''\<rparr>"
  let ?bad = "\<lparr>fhevmInstance = Some (), signer = Some ''0xA'', provider = Some (),
      contractAddress = Some ''0xC'', score = 6, target = replicate 42 CHR ''0''\<rparr>"
  have c: "canSubmit ?isAddress ?app" "\<not> canSubmit ?isAddress ?bad"
    by (simp_all add: canSubmit_def)
  have s: "submit ?isAddress ?encrypt ?send ?app =
     [SetStatus Encrypting, EncryptInput ''0xC'' ''0xA'' 4, SetStatus Submitting,
      SendTransaction (replicate 42 CHR ''0'') \<lparr>ext_bits = 8, ext_value = 4\<rparr> \<lparr>verifies = True\<rparr>,
      SetStatus Submitted]"
    using c(1) by (simp add: submit_def)
  from C10_submit_gated [of ?isAddress ?app ?encrypt ?send]
  have "clampedScore \<lparr>ext_bits = 8, ext_value = 4\<rparr> = 4"
    unfolding s by simp
  moreover from C10_submit_gated [of ?isAddress ?bad ?encrypt ?send] c(2)
  have "submit ?isAddress ?encrypt ?send ?bad = []"
    by blast
  ultimately show ?thesis using c s by blast
qed

end
